theory Spec2Isabelle
  imports Main "HOL-Library.Word"
begin

section \<open>Data model of gobfk\<close>

text \<open>
  The interpreter of \<^verbatim>\<open>gobfk.go\<close>: a token stream, a tape of bytes, a data pointer,
  a program counter and a completion flag. Go's \<^verbatim>\<open>byte\<close> is an 8-bit word, a
  \<^verbatim>\<open>rune\<close> a 32-bit one. Every Go run-time panic of the interpreter (an index out of
  range) is a value of type \<open>panic\<close>; it is never recovered in the program, so a panic
  ends the run.
\<close>

type_synonym byte = "8 word"
type_synonym rune = "32 word"

text \<open>
  \<^verbatim>\<open>type Token = byte\<close> with the constants \<^verbatim>\<open>COMMENT .. LOOPR\<close> (\<^verbatim>\<open>iota\<close>, 0 to 8).
  The tokenizer produces these nine values only.
\<close>

datatype Token = COMMENT | RIGHT | LEFT | INC | DEC | PRINT | READ | LOOPL | LOOPR

record BrainfuckProgram =
  Instructions :: "Token list"
  Tape :: "byte list"
  DP :: int
  PC :: int
  Finished :: bool

datatype panic = InstructionsIndexOutOfRange | TapeIndexOutOfRange

text \<open>
  The standard streams. \<open>stdin\<close> is the sequence of runes that the successive
  \<^verbatim>\<open>ReadRune\<close> calls of the run will deliver (each \<^verbatim>\<open>READ\<close> wraps \<^verbatim>\<open>os.Stdin\<close> in a
  fresh buffered reader and takes one rune from it); \<open>stdout\<close> is the sequence of
  cell values printed so far with \<^verbatim>\<open>fmt.Printf("%c", ...)\<close>.
\<close>

record io =
  stdin :: "rune list"
  stdout :: "byte list"

text \<open>
  Go's \<^verbatim>\<open>int\<close> is 64 bits wide on the platforms the program targets. \<open>DP\<close> moves
  without any bound check, so its wrap-around is written out. \<open>PC\<close> and the balance
  counters of the loop scans are only ever changed next to a successful index into
  \<open>Instructions\<close>, whose length is below \<open>2 ^ 63\<close> in Go, so they stay within
  \<open>-1 .. length\<close> resp. \<open>\<plusminus> (length + 1)\<close> and are plain integers here.
\<close>

definition int64 :: "int \<Rightarrow> int" where
  "int64 x = (x + 2 ^ 63) mod 2 ^ 64 - 2 ^ 63"

text \<open>The bounds check Go performs on \<^verbatim>\<open>xs[i]\<close>.\<close>

definition in_range :: "int \<Rightarrow> 'a list \<Rightarrow> bool" where
  "in_range i xs \<longleftrightarrow> 0 \<le> i \<and> i < int (length xs)"

section \<open>Tokenizer and program creation\<close>

text \<open>
  \<^verbatim>\<open>for _, char := range input\<close> walks the code points of the string (Go decodes the
  UTF-8 text; a byte that is no valid encoding comes as U+FFFD), so the tokenizer's input
  is the list of those runes, one per character. \<open>tokenize_char\<close> is the body of the
  \<^verbatim>\<open>switch char\<close>.
\<close>

definition tokenize_char :: "rune \<Rightarrow> Token" where
  "tokenize_char char =
     (if char = of_char CHR ''>'' then RIGHT
      else if char = of_char CHR ''<'' then LEFT
      else if char = of_char CHR ''+'' then INC
      else if char = of_char CHR ''-'' then DEC
      else if char = of_char CHR ''.'' then PRINT
      else if char = of_char CHR '','' then READ
      else if char = of_char CHR ''['' then LOOPL
      else if char = of_char CHR '']'' then LOOPR
      else COMMENT)"

fun tokenize_loop :: "Token list \<Rightarrow> rune list \<Rightarrow> Token list" where
  "tokenize_loop tokenized [] = tokenized"
| "tokenize_loop tokenized (char # rest) = tokenize_loop (tokenized @ [tokenize_char char]) rest"

definition tokenize :: "BrainfuckProgram \<Rightarrow> rune list \<Rightarrow> BrainfuckProgram" where
  "tokenize bf input = bf\<lparr>Instructions := tokenize_loop [] input\<rparr>"

definition CreateBrainfuckProgram :: "rune list \<Rightarrow> BrainfuckProgram" where
  "CreateBrainfuckProgram input =
     tokenize \<lparr>Instructions = [], Tape = replicate 64000 0, DP = 0, PC = 0, Finished = False\<rparr> input"

text \<open>The runes of an ASCII source text, for writing programs down.\<close>

definition runes :: "string \<Rightarrow> rune list" where
  "runes s = map of_char s"

section \<open>Execution engine\<close>

text \<open>
  \<^verbatim>\<open>openLoop\<close>: the loop \<^verbatim>\<open>for balance != 0 { bf.PC++; ... }\<close>. Each round indexes
  \<open>Instructions\<close> at the incremented counter, which panics past the end; the distance to
  the end shrinks, so the loop always ends.
\<close>

function openLoop_loop :: "Token list \<Rightarrow> int \<Rightarrow> int \<Rightarrow> panic + int" where
  "openLoop_loop ins pc balance =
     (if balance \<noteq> 0 then
        (let pc' = pc + 1 in
         if \<not> in_range pc' ins then Inl InstructionsIndexOutOfRange
         else if ins ! nat pc' = LOOPL then openLoop_loop ins pc' (balance + 1)
         else if ins ! nat pc' = LOOPR then openLoop_loop ins pc' (balance - 1)
         else openLoop_loop ins pc' balance)
      else Inr pc)"
  by pat_completeness auto
termination
  by (relation "measure (\<lambda>(ins, pc, balance). nat (int (length ins) - pc))")
     (auto simp: in_range_def)

declare openLoop_loop.simps [simp del]

definition openLoop :: "BrainfuckProgram \<Rightarrow> panic + BrainfuckProgram" where
  "openLoop bf =
     (if \<not> in_range (DP bf) (Tape bf) then Inl TapeIndexOutOfRange
      else if Tape bf ! nat (DP bf) = 0 then
        (case openLoop_loop (Instructions bf) (PC bf) 1 of
           Inl e \<Rightarrow> Inl e
         | Inr pc \<Rightarrow> Inr (bf\<lparr>PC := pc\<rparr>))
      else Inr bf)"

text \<open>
  \<^verbatim>\<open>closeLoop\<close>: the loop \<^verbatim>\<open>for { ...; bf.PC--; if balance == 0 { break } }\<close>. Each
  round indexes \<open>Instructions\<close> at the counter before decrementing it, which panics
  below 0.
\<close>

function closeLoop_loop :: "Token list \<Rightarrow> int \<Rightarrow> int \<Rightarrow> panic + int" where
  "closeLoop_loop ins pc balance =
     (if \<not> in_range pc ins then Inl InstructionsIndexOutOfRange
      else
        (let balance' = (if ins ! nat pc = LOOPL then balance + 1
                         else if ins ! nat pc = LOOPR then balance - 1
                         else balance);
             pc' = pc - 1
         in if balance' = 0 then Inr pc' else closeLoop_loop ins pc' balance'))"
  by pat_completeness auto
termination
  by (relation "measure (\<lambda>(ins, pc, balance). nat (pc + 1))")
     (auto simp: in_range_def)

declare closeLoop_loop.simps [simp del]

definition closeLoop :: "BrainfuckProgram \<Rightarrow> panic + BrainfuckProgram" where
  "closeLoop bf =
     (case closeLoop_loop (Instructions bf) (PC bf) 0 of
        Inl e \<Rightarrow> Inl e
      | Inr pc \<Rightarrow> Inr (bf\<lparr>PC := pc\<rparr>))"

text \<open>
  \<^verbatim>\<open>reader.ReadRune()\<close> on a fresh \<^verbatim>\<open>bufio.NewReader(os.Stdin)\<close>: the next rune of the
  input, or, when the input is exhausted, the rune 0 together with an error that
  \<^verbatim>\<open>Evaluate\<close> discards (\<^verbatim>\<open>char, _, _ := ...\<close>).
\<close>

definition ReadRune :: "rune list \<Rightarrow> rune \<times> rune list" where
  "ReadRune inp = (case inp of [] \<Rightarrow> (0, []) | char # rest \<Rightarrow> (char, rest))"

text \<open>The tail of \<^verbatim>\<open>Evaluate\<close>: \<^verbatim>\<open>bf.PC++\<close> and the test that sets \<^verbatim>\<open>Finished\<close>.\<close>

definition advance :: "BrainfuckProgram \<Rightarrow> BrainfuckProgram" where
  "advance bf =
     (let bf' = bf\<lparr>PC := PC bf + 1\<rparr>
      in if PC bf' \<ge> int (length (Instructions bf')) then bf'\<lparr>Finished := True\<rparr> else bf')"

definition Evaluate :: "BrainfuckProgram \<Rightarrow> io \<Rightarrow> panic + BrainfuckProgram \<times> io" where
  "Evaluate bf w =
     (if \<not> in_range (PC bf) (Instructions bf) then Inl InstructionsIndexOutOfRange
      else case Instructions bf ! nat (PC bf) of
        RIGHT \<Rightarrow> Inr (advance (bf\<lparr>DP := int64 (DP bf + 1)\<rparr>), w)
      | LEFT \<Rightarrow> Inr (advance (bf\<lparr>DP := int64 (DP bf - 1)\<rparr>), w)
      | INC \<Rightarrow>
          if \<not> in_range (DP bf) (Tape bf) then Inl TapeIndexOutOfRange
          else Inr (advance (bf\<lparr>Tape := (Tape bf)[nat (DP bf) := Tape bf ! nat (DP bf) + 1]\<rparr>), w)
      | DEC \<Rightarrow>
          if \<not> in_range (DP bf) (Tape bf) then Inl TapeIndexOutOfRange
          else Inr (advance (bf\<lparr>Tape := (Tape bf)[nat (DP bf) := Tape bf ! nat (DP bf) - 1]\<rparr>), w)
      | PRINT \<Rightarrow>
          if \<not> in_range (DP bf) (Tape bf) then Inl TapeIndexOutOfRange
          else Inr (advance bf, w\<lparr>stdout := stdout w @ [Tape bf ! nat (DP bf)]\<rparr>)
      | READ \<Rightarrow>
          (let (char, rest) = ReadRune (stdin w) in
           if \<not> in_range (DP bf) (Tape bf) then Inl TapeIndexOutOfRange
           else Inr (advance (bf\<lparr>Tape := (Tape bf)[nat (DP bf) := ucast char]\<rparr>),
                     w\<lparr>stdin := rest\<rparr>))
      | LOOPL \<Rightarrow> (case openLoop bf of Inl e \<Rightarrow> Inl e | Inr bf' \<Rightarrow> Inr (advance bf', w))
      | LOOPR \<Rightarrow> (case closeLoop bf of Inl e \<Rightarrow> Inl e | Inr bf' \<Rightarrow> Inr (advance bf', w))
      | COMMENT \<Rightarrow> Inr (advance bf, w))"

text \<open>
  The caller's loop of \<^verbatim>\<open>main\<close>, \<^verbatim>\<open>for bf.Finished != true { bf.Evaluate() }\<close>, which
  need not end: \<open>run n\<close> allows at most \<open>n\<close> calls of \<^verbatim>\<open>Evaluate\<close> and is \<open>None\<close> when
  the program is not finished by then.
\<close>

fun run :: "nat \<Rightarrow> BrainfuckProgram \<Rightarrow> io \<Rightarrow> (panic + BrainfuckProgram \<times> io) option" where
  "run 0 bf w = (if Finished bf then Some (Inr (bf, w)) else None)"
| "run (Suc n) bf w =
     (if Finished bf then Some (Inr (bf, w))
      else case Evaluate bf w of
             Inl e \<Rightarrow> Some (Inl e)
           | Inr (bf', w') \<Rightarrow> run n bf' w')"

section \<open>Bracket structure\<close>

text \<open>
  The nesting of the brackets of a token list, stated without reference to the scans of
  the engine. \<open>delta\<close> is what a token adds to the nesting depth, \<open>sumd\<close> the change of
  depth over a list, and \<open>bal_scan d xs\<close> reads \<open>xs\<close> from depth \<open>d\<close>: the depth never
  falls below 0 and is 0 at the end. A list is balanced when that holds from depth 0.
  The loop-open at \<open>i\<close> and the loop-close at \<open>j\<close> match when the tokens strictly between
  them are balanced.
\<close>

definition delta :: "Token \<Rightarrow> int" where
  "delta t = (if t = LOOPL then 1 else if t = LOOPR then - 1 else 0)"

definition sumd :: "Token list \<Rightarrow> int" where
  "sumd xs = sum_list (map delta xs)"

fun bal_scan :: "int \<Rightarrow> Token list \<Rightarrow> bool" where
  "bal_scan d [] \<longleftrightarrow> d = 0"
| "bal_scan d (t # xs) \<longleftrightarrow>
     (if t = LOOPL then bal_scan (d + 1) xs
      else if t = LOOPR then 0 < d \<and> bal_scan (d - 1) xs
      else bal_scan d xs)"

definition balanced :: "Token list \<Rightarrow> bool" where
  "balanced xs \<longleftrightarrow> bal_scan 0 xs"

definition matching :: "Token list \<Rightarrow> nat \<Rightarrow> nat \<Rightarrow> bool" where
  "matching ins i j \<longleftrightarrow>
     i < j \<and> j < length ins \<and> ins ! i = LOOPL \<and> ins ! j = LOOPR \<and>
     balanced (take (j - Suc i) (drop (Suc i) ins))"

text \<open>
  The states a caller meets that creates a program from \<open>input\<close> and calls
  \<^verbatim>\<open>Evaluate\<close> only while \<^verbatim>\<open>Finished\<close> is false, as \<^verbatim>\<open>main\<close> does.
\<close>

inductive reachable :: "rune list \<Rightarrow> io \<Rightarrow> BrainfuckProgram \<times> io \<Rightarrow> bool"
  for input :: "rune list" and w0 :: io
where
  created: "reachable input w0 (CreateBrainfuckProgram input, w0)"
| stepped: "reachable input w0 (bf, w) \<Longrightarrow> \<not> Finished bf \<Longrightarrow> Evaluate bf w = Inr (bf', w')
            \<Longrightarrow> reachable input w0 (bf', w')"

section \<open>The token list of a text\<close>

lemma tokenize_loop_map: "tokenize_loop tokenized input = tokenized @ map tokenize_char input"
  by (induction input arbitrary: tokenized) simp_all

lemma Instructions_tokenize: "Instructions (tokenize bf input) = map tokenize_char input"
  by (simp add: tokenize_def tokenize_loop_map)

section \<open>The loop scans\<close>

lemma sumd_simps [simp]:
  "sumd [] = 0" "sumd (t # xs) = delta t + sumd xs" "sumd (xs @ ys) = sumd xs + sumd ys"
  by (simp_all add: sumd_def)

lemma bal_scan_Cons: "bal_scan d (t # xs) \<Longrightarrow> 0 \<le> d \<Longrightarrow> bal_scan (d + delta t) xs \<and> 0 \<le> d + delta t"
  by (auto simp: delta_def split: if_splits)

lemma bal_scan_counts:
  "bal_scan d xs \<Longrightarrow> 0 \<le> d \<Longrightarrow> d + sumd xs = 0 \<and> (\<forall>n. 0 \<le> d + sumd (take n xs))"
proof (induction xs arbitrary: d)
  case Nil
  then show ?case by simp
next
  case (Cons t xs)
  from bal_scan_Cons [OF Cons.prems]
  have b: "bal_scan (d + delta t) xs" and d: "0 \<le> d + delta t" by simp_all
  from Cons.IH [OF b d]
  have s: "d + delta t + sumd xs = 0" and p: "\<And>n. 0 \<le> d + delta t + sumd (take n xs)"
    by simp_all
  have "0 \<le> d + sumd (take n (t # xs))" for n
    using p Cons.prems(2) by (cases n) (simp_all add: add.assoc)
  with s show ?case by (simp add: add.assoc)
qed

lemma openLoop_loop_step:
  "balance \<noteq> 0 \<Longrightarrow> in_range (pc + 1) ins \<Longrightarrow>
   openLoop_loop ins pc balance = openLoop_loop ins (pc + 1) (balance + delta (ins ! nat (pc + 1)))"
  by (subst openLoop_loop.simps) (simp add: delta_def Let_def)

lemma openLoop_loop_stop: "openLoop_loop ins pc 0 = Inr pc"
  by (subst openLoop_loop.simps) simp

lemma closeLoop_loop_step:
  "in_range pc ins \<Longrightarrow>
   closeLoop_loop ins pc balance =
     (if balance + delta (ins ! nat pc) = 0 then Inr (pc - 1)
      else closeLoop_loop ins (pc - 1) (balance + delta (ins ! nat pc)))"
  by (subst closeLoop_loop.simps) (simp add: delta_def Let_def)

lemma openLoop_loop_skip:
  "bal_scan d seg \<Longrightarrow> 0 \<le> d \<Longrightarrow> 0 < b \<Longrightarrow>
   openLoop_loop (pre @ seg @ post) (int (length pre) - 1) (b + d) =
   openLoop_loop (pre @ seg @ post) (int (length pre) + int (length seg) - 1) b"
proof (induction seg arbitrary: d pre)
  case Nil
  then show ?case by simp
next
  case (Cons t seg)
  from bal_scan_Cons [OF Cons.prems(1,2)]
  have b: "bal_scan (d + delta t) seg" and d: "0 \<le> d + delta t" by simp_all
  have "openLoop_loop (pre @ (t # seg) @ post) (int (length pre) - 1) (b + d) =
        openLoop_loop (pre @ (t # seg) @ post) (int (length pre)) (b + d + delta t)"
    using Cons.prems(2,3) openLoop_loop_step [of "b + d" "int (length pre) - 1" "pre @ (t # seg) @ post"]
    by (simp add: in_range_def)
  also have "\<dots> = openLoop_loop ((pre @ [t]) @ seg @ post) (int (length (pre @ [t])) - 1) (b + (d + delta t))"
    by (simp add: add.assoc)
  also have "\<dots> = openLoop_loop ((pre @ [t]) @ seg @ post) (int (length (pre @ [t])) + int (length seg) - 1) b"
    by (rule Cons.IH [OF b d Cons.prems(3)])
  finally show ?case by simp
qed

lemma closeLoop_loop_skip:
  "(\<And>n. b + sumd (drop n seg) < 0) \<Longrightarrow>
   closeLoop_loop (pre @ seg @ post) (int (length pre) + int (length seg) - 1) b =
   closeLoop_loop (pre @ seg @ post) (int (length pre) - 1) (b + sumd seg)"
proof (induction seg arbitrary: b post rule: rev_induct)
  case Nil
  then show ?case by simp
next
  case (snoc t seg)
  have neg: "b + delta t < 0"
    using snoc.prems [of "length seg"] by simp
  have suf: "b + delta t + sumd (drop n seg) < 0" for n
  proof (cases "n \<le> length seg")
    case True
    with snoc.prems [of n] show ?thesis by simp
  next
    case False
    with neg show ?thesis by simp
  qed
  have "closeLoop_loop (pre @ (seg @ [t]) @ post) (int (length pre) + int (length (seg @ [t])) - 1) b =
        closeLoop_loop (pre @ (seg @ [t]) @ post) (int (length pre) + int (length seg) - 1) (b + delta t)"
    using neg closeLoop_loop_step [of "int (length pre) + int (length seg)" "pre @ (seg @ [t]) @ post" b]
    by (simp add: in_range_def nat_add_distrib nth_append)
  also have "\<dots> = closeLoop_loop (pre @ seg @ (t # post)) (int (length pre) + int (length seg) - 1) (b + delta t)"
    by simp
  also have "\<dots> = closeLoop_loop (pre @ seg @ (t # post)) (int (length pre) - 1) (b + delta t + sumd seg)"
    by (rule snoc.IH [OF suf])
  finally show ?case by (simp add: ac_simps)
qed

lemma matching_split:
  assumes "matching ins i j"
  shows "ins = take (Suc i) ins @ take (j - Suc i) (drop (Suc i) ins) @ drop j ins"
proof -
  from assms have "Suc i \<le> j" by (simp add: matching_def)
  then have "drop j ins = drop (j - Suc i) (drop (Suc i) ins)" by simp
  then have "take (j - Suc i) (drop (Suc i) ins) @ drop j ins = drop (Suc i) ins"
    by (simp only: append_take_drop_id)
  then show ?thesis by (simp only: append_take_drop_id)
qed

lemma openLoop_loop_matching:
  assumes m: "matching ins i j"
  shows "openLoop_loop ins (int i) 1 = Inr (int j)"
proof -
  let ?pre = "take (Suc i) ins" and ?seg = "take (j - Suc i) (drop (Suc i) ins)"
  from m have ij: "i < j" "j < length ins" and close: "ins ! j = LOOPR"
    and bal: "bal_scan 0 ?seg"
    by (simp_all add: matching_def balanced_def)
  have len: "length ?pre = Suc i" "length ?seg = j - Suc i" using ij by simp_all
  have "openLoop_loop (?pre @ ?seg @ drop j ins) (int (length ?pre) - 1) (1 + 0) =
        openLoop_loop (?pre @ ?seg @ drop j ins) (int (length ?pre) + int (length ?seg) - 1) 1"
    by (rule openLoop_loop_skip [OF bal]) simp_all
  then have "openLoop_loop ins (int i) 1 = openLoop_loop ins (int j - 1) 1"
    using ij unfolding matching_split [OF m, symmetric] len by (simp add: of_nat_diff)
  also have "\<dots> = openLoop_loop ins (int j) 0"
    using ij close openLoop_loop_step [of 1 "int j - 1" ins]
    by (simp add: in_range_def delta_def)
  finally show ?thesis by (simp add: openLoop_loop_stop)
qed

lemma closeLoop_loop_matching:
  assumes m: "matching ins i j"
  shows "closeLoop_loop ins (int j) 0 = Inr (int i - 1)"
proof -
  let ?pre = "take (Suc i) ins" and ?seg = "take (j - Suc i) (drop (Suc i) ins)"
  from m have ij: "i < j" "j < length ins" and close: "ins ! j = LOOPR"
    and opn: "ins ! i = LOOPL" and bal: "bal_scan 0 ?seg"
    by (simp_all add: matching_def balanced_def)
  have len: "length ?pre = Suc i" "length ?seg = j - Suc i" using ij by simp_all
  from bal_scan_counts [OF bal]
  have tot: "sumd ?seg = 0" and pre: "\<And>n. 0 \<le> sumd (take n ?seg)" by simp_all
  have suf: "- 1 + sumd (drop n ?seg) < 0" for n
  proof -
    have "sumd (take n ?seg @ drop n ?seg) = 0" using tot by (simp only: append_take_drop_id)
    then have "sumd (take n ?seg) + sumd (drop n ?seg) = 0" by simp
    with pre [of n] show ?thesis by simp
  qed
  have "closeLoop_loop ins (int j) 0 = closeLoop_loop ins (int j - 1) (- 1)"
    using ij close closeLoop_loop_step [of "int j" ins 0] by (simp add: in_range_def delta_def)
  also have "closeLoop_loop (?pre @ ?seg @ drop j ins) (int (length ?pre) + int (length ?seg) - 1) (- 1) =
        closeLoop_loop (?pre @ ?seg @ drop j ins) (int (length ?pre) - 1) (- 1 + sumd ?seg)"
    by (rule closeLoop_loop_skip [OF suf])
  then have "closeLoop_loop ins (int j - 1) (- 1) = closeLoop_loop ins (int i) (- 1)"
    using ij tot unfolding matching_split [OF m, symmetric] len by (simp add: of_nat_diff)
  also have "\<dots> = Inr (int i - 1)"
    using ij opn closeLoop_loop_step [of "int i" ins "- 1"] by (simp add: in_range_def delta_def)
  finally show ?thesis .
qed

lemma advance_eq:
  "advance bf = bf\<lparr>PC := PC bf + 1,
                   Finished := Finished bf \<or> int (length (Instructions bf)) \<le> PC bf + 1\<rparr>"
  by (simp add: advance_def Let_def)

section \<open>Where the scans end\<close>

text \<open>
  A scan that returns has indexed \<open>Instructions\<close> successfully at every position it
  visited, which bounds the cursor it leaves; and over balanced brackets both scans
  return.
\<close>

lemma openLoop_loop_result:
  "openLoop_loop ins pc b = Inr r \<Longrightarrow>
   (b = 0 \<longrightarrow> r = pc) \<and> (b \<noteq> 0 \<longrightarrow> pc < r \<and> in_range r ins)"
proof (induction "nat (int (length ins) - pc)" arbitrary: pc b rule: less_induct)
  case less
  show ?case
  proof (cases "b = 0")
    case True
    with less.prems show ?thesis by (simp add: openLoop_loop_stop)
  next
    case False
    have rng: "in_range (pc + 1) ins"
    proof (rule ccontr)
      assume "\<not> in_range (pc + 1) ins"
      with False have "openLoop_loop ins pc b = Inl InstructionsIndexOutOfRange"
        by (subst openLoop_loop.simps) simp
      with less.prems show False by simp
    qed
    let ?b = "b + delta (ins ! nat (pc + 1))"
    have eq: "openLoop_loop ins (pc + 1) ?b = Inr r"
      using less.prems openLoop_loop_step [OF False rng] by simp
    have "nat (int (length ins) - (pc + 1)) < nat (int (length ins) - pc)"
      using rng by (simp add: in_range_def)
    from less.hyps [OF this eq]
    have "(?b = 0 \<longrightarrow> r = pc + 1) \<and> (?b \<noteq> 0 \<longrightarrow> pc + 1 < r \<and> in_range r ins)" .
    with rng False show ?thesis by auto
  qed
qed

lemma closeLoop_loop_result:
  "closeLoop_loop ins pc b = Inr r \<Longrightarrow> - 1 \<le> r \<and> r < pc"
proof (induction "nat (pc + 1)" arbitrary: pc b rule: less_induct)
  case less
  have rng: "in_range pc ins"
  proof (rule ccontr)
    assume "\<not> in_range pc ins"
    then have "closeLoop_loop ins pc b = Inl InstructionsIndexOutOfRange"
      by (subst closeLoop_loop.simps) simp
    with less.prems show False by simp
  qed
  let ?b = "b + delta (ins ! nat pc)"
  show ?case
  proof (cases "?b = 0")
    case True
    with less.prems rng closeLoop_loop_step [OF rng, of b] show ?thesis
      by (simp add: in_range_def)
  next
    case False
    then have eq: "closeLoop_loop ins (pc - 1) ?b = Inr r"
      using less.prems closeLoop_loop_step [OF rng, of b] by simp
    have "nat (pc - 1 + 1) < nat (pc + 1)" using rng by (simp add: in_range_def)
    from less.hyps [OF this eq] show ?thesis by simp
  qed
qed

lemma Evaluate_cursor:
  assumes "Evaluate bf w = Inr (bf', w')"
  shows "in_range (PC bf) (Instructions bf) \<and>
         Instructions bf' = Instructions bf \<and>
         0 \<le> PC bf' \<and> PC bf' \<le> int (length (Instructions bf)) \<and>
         (Finished bf' \<longleftrightarrow> Finished bf \<or> int (length (Instructions bf)) \<le> PC bf')"
proof -
  have rng: "in_range (PC bf) (Instructions bf)"
    using assms by (auto simp: Evaluate_def split: if_splits)
  then have b: "0 \<le> PC bf" "PC bf < int (length (Instructions bf))"
    by (simp_all add: in_range_def)
  show ?thesis
  proof (cases "Instructions bf ! nat (PC bf)")
    case LOOPL
    with assms rng obtain bf1 where o: "openLoop bf = Inr bf1" and r: "bf' = advance bf1"
      by (auto simp: Evaluate_def split: sum.splits)
    from o have "Instructions bf1 = Instructions bf \<and> Finished bf1 = Finished bf \<and>
                 PC bf \<le> PC bf1 \<and> PC bf1 < int (length (Instructions bf))"
      using b by (auto simp: openLoop_def in_range_def split: if_splits sum.splits
          dest!: openLoop_loop_result)
    with r b rng show ?thesis by (auto simp: advance_eq)
  next
    case LOOPR
    with assms rng obtain bf1 where o: "closeLoop bf = Inr bf1" and r: "bf' = advance bf1"
      by (auto simp: Evaluate_def split: sum.splits)
    from o have "Instructions bf1 = Instructions bf \<and> Finished bf1 = Finished bf \<and>
                 - 1 \<le> PC bf1 \<and> PC bf1 < PC bf"
      by (auto simp: closeLoop_def split: sum.splits dest!: closeLoop_loop_result)
    with r b rng show ?thesis by (auto simp: advance_eq)
  qed (use assms rng b in \<open>auto simp: Evaluate_def advance_eq split: if_splits prod.splits\<close>)
qed

lemma delta_bounds: "- 1 \<le> delta t" "delta t \<le> 1"
  by (simp_all add: delta_def)

lemma openLoop_loop_returns:
  "0 < b \<Longrightarrow> b + sumd xs \<le> 0 \<Longrightarrow>
   \<exists>r. openLoop_loop (pre @ xs) (int (length pre) - 1) b = Inr r"
proof (induction xs arbitrary: pre b)
  case Nil
  then show ?case by simp
next
  case (Cons t xs)
  let ?b = "b + delta t"
  have step: "openLoop_loop (pre @ t # xs) (int (length pre) - 1) b =
              openLoop_loop ((pre @ [t]) @ xs) (int (length (pre @ [t])) - 1) ?b"
    using Cons.prems(1) openLoop_loop_step [of b "int (length pre) - 1" "pre @ t # xs"]
    by (simp add: in_range_def)
  show ?case
  proof (cases "?b = 0")
    case True
    with step show ?thesis by (simp add: openLoop_loop_stop)
  next
    case False
    with Cons.prems(1) delta_bounds(1) [of t] have pos: "0 < ?b" by simp
    from Cons.prems(2) have "?b + sumd xs \<le> 0" by simp
    from Cons.IH [OF pos this, of "pre @ [t]"] step show ?thesis by simp
  qed
qed

lemma closeLoop_loop_returns:
  "b < 0 \<Longrightarrow> 0 \<le> b + sumd xs \<Longrightarrow>
   \<exists>r. closeLoop_loop (xs @ post) (int (length xs) - 1) b = Inr r"
proof (induction xs arbitrary: post b rule: rev_induct)
  case Nil
  then show ?case by simp
next
  case (snoc t xs)
  let ?b = "b + delta t"
  have step: "closeLoop_loop ((xs @ [t]) @ post) (int (length (xs @ [t])) - 1) b =
              (if ?b = 0 then Inr (int (length xs) - 1)
               else closeLoop_loop (xs @ t # post) (int (length xs) - 1) ?b)"
    using closeLoop_loop_step [of "int (length xs)" "(xs @ [t]) @ post" b]
    by (simp add: in_range_def)
  show ?case
  proof (cases "?b = 0")
    case True
    with step show ?thesis by simp
  next
    case False
    with snoc.prems(1) delta_bounds(2) [of t] have neg: "?b < 0" by simp
    from snoc.prems(2) have "0 \<le> ?b + sumd xs" by (simp add: ac_simps)
    from snoc.IH [OF neg this, of "t # post"] step False show ?thesis by simp
  qed
qed

lemma balanced_split:
  assumes "balanced ins" and "p < length ins"
  shows "0 \<le> sumd (take p ins)" and "0 \<le> sumd (take p ins) + delta (ins ! p)"
    and "sumd (take p ins) + delta (ins ! p) + sumd (drop (Suc p) ins) = 0"
proof -
  from assms(1) have "bal_scan 0 ins" by (simp add: balanced_def)
  from bal_scan_counts [OF this]
  have tot: "sumd ins = 0" and pre: "\<And>n. 0 \<le> sumd (take n ins)" by simp_all
  show "0 \<le> sumd (take p ins)" by (rule pre)
  have t: "take (Suc p) ins = take p ins @ [ins ! p]"
    using assms(2) by (rule take_Suc_conv_app_nth)
  from pre [of "Suc p"] show "0 \<le> sumd (take p ins) + delta (ins ! p)"
    by (simp add: t)
  have "sumd (take (Suc p) ins @ drop (Suc p) ins) = 0"
    using tot by (simp only: append_take_drop_id)
  then show "sumd (take p ins) + delta (ins ! p) + sumd (drop (Suc p) ins) = 0"
    by (simp add: t)
qed

section \<open>Evaluating concrete programs\<close>

lemma create_eq:
  "CreateBrainfuckProgram input =
     \<lparr>Instructions = map tokenize_char input, Tape = replicate 64000 0,
      DP = 0, PC = 0, Finished = False\<rparr>"
  by (simp add: CreateBrainfuckProgram_def tokenize_def tokenize_loop_map)

lemma replicate_update_same: "(replicate n x)[i := x] = replicate n x"
  by (cases "i < n") (simp_all add: list_eq_iff_nth_eq nth_list_update)

lemma byte_wrap: "(256 :: byte) = 0" "(- 1 :: byte) = 255"
  by simp_all

lemma run_numeral:
  "run (numeral k) bf w =
     (if Finished bf then Some (Inr (bf, w))
      else case Evaluate bf w of
             Inl e \<Rightarrow> Some (Inl e)
           | Inr (bf', w') \<Rightarrow> run (pred_numeral k) bf' w')"
  by (simp add: numeral_eq_Suc)

text \<open>The five calls of \<^verbatim>\<open>Evaluate\<close> that the source \<^verbatim>\<open>+[-]\<close> takes.\<close>

lemma plus_loop_program:
  "CreateBrainfuckProgram (runes ''+[-]'') =
     \<lparr>Instructions = [INC, LOOPL, DEC, LOOPR], Tape = replicate 64000 0,
      DP = 0, PC = 0, Finished = False\<rparr>"
  by (simp add: create_eq runes_def tokenize_char_def)

lemma plus_loop_step1:
  "Evaluate \<lparr>Instructions = [INC, LOOPL, DEC, LOOPR], Tape = replicate 64000 0,
             DP = 0, PC = 0, Finished = False\<rparr> w =
   Inr (\<lparr>Instructions = [INC, LOOPL, DEC, LOOPR], Tape = (replicate 64000 0)[0 := 1],
         DP = 0, PC = 1, Finished = False\<rparr>, w)"
  by (simp add: Evaluate_def in_range_def advance_def)

lemma plus_loop_step2:
  "Evaluate \<lparr>Instructions = [INC, LOOPL, DEC, LOOPR], Tape = (replicate 64000 0)[0 := 1],
             DP = 0, PC = 1, Finished = False\<rparr> w =
   Inr (\<lparr>Instructions = [INC, LOOPL, DEC, LOOPR], Tape = (replicate 64000 0)[0 := 1],
         DP = 0, PC = 2, Finished = False\<rparr>, w)"
  by (simp add: Evaluate_def in_range_def advance_def openLoop_def)

lemma plus_loop_step3:
  "Evaluate \<lparr>Instructions = [INC, LOOPL, DEC, LOOPR], Tape = (replicate 64000 0)[0 := 1],
             DP = 0, PC = 2, Finished = False\<rparr> w =
   Inr (\<lparr>Instructions = [INC, LOOPL, DEC, LOOPR], Tape = replicate 64000 0,
         DP = 0, PC = 3, Finished = False\<rparr>, w)"
  by (simp add: Evaluate_def in_range_def advance_def replicate_update_same)

lemma plus_loop_step4:
  "Evaluate \<lparr>Instructions = [INC, LOOPL, DEC, LOOPR], Tape = replicate 64000 0,
             DP = 0, PC = 3, Finished = False\<rparr> w =
   Inr (\<lparr>Instructions = [INC, LOOPL, DEC, LOOPR], Tape = replicate 64000 0,
         DP = 0, PC = 1, Finished = False\<rparr>, w)"
  by (simp add: Evaluate_def in_range_def closeLoop_def closeLoop_loop.simps advance_def)

lemma plus_loop_step5:
  "Evaluate \<lparr>Instructions = [INC, LOOPL, DEC, LOOPR], Tape = replicate 64000 0,
             DP = 0, PC = 1, Finished = False\<rparr> w =
   Inr (\<lparr>Instructions = [INC, LOOPL, DEC, LOOPR], Tape = replicate 64000 0,
         DP = 0, PC = 4, Finished = True\<rparr>, w)"
  by (simp add: Evaluate_def in_range_def openLoop_def openLoop_loop.simps advance_def)

lemmas plus_loop_steps =
  plus_loop_step1 plus_loop_step2 plus_loop_step3 plus_loop_step4 plus_loop_step5

section \<open>Tokenizing and creating\<close>

text \<open>
  Claim C5. The tokenizer is total and emits one instruction per input character: the
  instruction list is the character-wise image of the input under the \<^verbatim>\<open>switch\<close>, so
  it has the length of the input; the eight symbols map to their instructions and
  exactly the other characters map to \<open>COMMENT\<close>. A character is a code point of
  the source string, which is what \<^verbatim>\<open>range\<close> iterates over.
\<close>

theorem tokenize_one_instruction_per_character:
  "length (Instructions (tokenize bf input)) = length input \<and>
   Instructions (tokenize bf input) = map tokenize_char input \<and>
   tokenize_char (of_char CHR ''>'') = RIGHT \<and>
   tokenize_char (of_char CHR ''<'') = LEFT \<and>
   tokenize_char (of_char CHR ''+'') = INC \<and>
   tokenize_char (of_char CHR ''-'') = DEC \<and>
   tokenize_char (of_char CHR ''.'') = PRINT \<and>
   tokenize_char (of_char CHR '','') = READ \<and>
   tokenize_char (of_char CHR ''['') = LOOPL \<and>
   tokenize_char (of_char CHR '']'') = LOOPR \<and>
   (tokenize_char char = COMMENT) =
     (char \<notin> of_char ` {CHR ''>'', CHR ''<'', CHR ''+'', CHR ''-'', CHR ''.'', CHR '','',
                        CHR ''['', CHR '']''})"
  by (simp add: Instructions_tokenize tokenize_char_def)

text \<open>
  Claim C8. Program creation depends on the input text only: the created program is
  the tokenized text with a tape of 64000 zero cells, both cursors at 0 and
  \<open>Finished\<close> false, so two calls on the same text give the same program.
\<close>

theorem CreateBrainfuckProgram_pure:
  "CreateBrainfuckProgram input =
     \<lparr>Instructions = map tokenize_char input, Tape = replicate 64000 0,
      DP = 0, PC = 0, Finished = False\<rparr> \<and>
   length (Tape (CreateBrainfuckProgram input)) = 64000 \<and>
   set (Tape (CreateBrainfuckProgram input)) = {0}"
  by (simp add: create_eq)

section \<open>Loop handling\<close>

text \<open>
  Claim C1, as the code has it. On a loop-close at \<open>j\<close> whose matching loop-open is at
  \<open>i\<close>, \<^verbatim>\<open>closeLoop\<close> scans backward from \<open>j\<close> (counter from 0, a loop-close subtracts
  one, a loop-open adds one), stops when the counter is back at 0, which is at the
  matching loop-open, and leaves the cursor one position before that loop-open, at
  \<open>i - 1\<close>. The increment at the end of \<^verbatim>\<open>Evaluate\<close> then puts the cursor on the
  loop-open itself, so the next step tests the loop condition again.
\<close>

theorem closeLoop_jump_backward:
  assumes "matching (Instructions bf) i j" and "PC bf = int j"
  shows "closeLoop bf = Inr (bf\<lparr>PC := int i - 1\<rparr>) \<and>
         Evaluate bf w = Inr (bf\<lparr>PC := int i\<rparr>, w) \<and>
         Instructions bf ! i = LOOPL"
proof -
  from assms(1) have ij: "i < j" "j < length (Instructions bf)"
    and close: "Instructions bf ! j = LOOPR" and opn: "Instructions bf ! i = LOOPL"
    by (simp_all add: matching_def)
  have c: "closeLoop bf = Inr (bf\<lparr>PC := int i - 1\<rparr>)"
    using closeLoop_loop_matching [OF assms(1)] assms(2) by (simp add: closeLoop_def)
  have "Evaluate bf w = Inr (advance (bf\<lparr>PC := int i - 1\<rparr>), w)"
    using ij close assms(2) c by (simp add: Evaluate_def in_range_def)
  moreover have "advance (bf\<lparr>PC := int i - 1\<rparr>) = bf\<lparr>PC := int i\<rparr>"
    using ij by (simp add: advance_def)
  ultimately show ?thesis using c opn by simp
qed

text \<open>
  The theorem at the loop \<^verbatim>\<open>[-]\<close> with the cursor on its loop-close: the cursor is
  left at \<open>-1\<close> by the scan and is 0, the loop-open, after the step.
\<close>

theorem closeLoop_jump_backward_witness:
  "matching [LOOPL, DEC, LOOPR] 0 2 \<and>
   closeLoop \<lparr>Instructions = [LOOPL, DEC, LOOPR], Tape = replicate 64000 0,
              DP = 0, PC = 2, Finished = False\<rparr> =
     Inr \<lparr>Instructions = [LOOPL, DEC, LOOPR], Tape = replicate 64000 0,
          DP = 0, PC = - 1, Finished = False\<rparr> \<and>
   Evaluate \<lparr>Instructions = [LOOPL, DEC, LOOPR], Tape = replicate 64000 0,
             DP = 0, PC = 2, Finished = False\<rparr> \<lparr>stdin = [], stdout = []\<rparr> =
     Inr (\<lparr>Instructions = [LOOPL, DEC, LOOPR], Tape = replicate 64000 0,
           DP = 0, PC = 0, Finished = False\<rparr>, \<lparr>stdin = [], stdout = []\<rparr>)"
proof -
  have m: "matching [LOOPL, DEC, LOOPR] 0 2"
    by (simp add: matching_def balanced_def)
  from closeLoop_jump_backward
    [of "\<lparr>Instructions = [LOOPL, DEC, LOOPR], Tape = replicate 64000 0,
          DP = 0, PC = 2, Finished = False\<rparr>" 0 2 "\<lparr>stdin = [], stdout = []\<rparr>"] m
  show ?thesis by simp
qed

text \<open>
  Claim C1 as stated fails. In \<^verbatim>\<open>+[-]\<close> with the cursor on the loop-close at 3 (the
  state after three steps), the matching loop-open is at 1 and the loop body starts at
  2. The claim has \<^verbatim>\<open>closeLoop\<close> leave the cursor at 1 and the step end at 2; the code
  leaves it at 0 and the step ends at 1.
\<close>

theorem closeLoop_cursor_counterexample:
  "closeLoop \<lparr>Instructions = [INC, LOOPL, DEC, LOOPR], Tape = replicate 64000 0,
              DP = 0, PC = 3, Finished = False\<rparr> \<noteq>
     Inr \<lparr>Instructions = [INC, LOOPL, DEC, LOOPR], Tape = replicate 64000 0,
          DP = 0, PC = 1, Finished = False\<rparr> \<and>
   Evaluate \<lparr>Instructions = [INC, LOOPL, DEC, LOOPR], Tape = replicate 64000 0,
             DP = 0, PC = 3, Finished = False\<rparr> \<lparr>stdin = [], stdout = []\<rparr> \<noteq>
     Inr (\<lparr>Instructions = [INC, LOOPL, DEC, LOOPR], Tape = replicate 64000 0,
           DP = 0, PC = 2, Finished = False\<rparr>, \<lparr>stdin = [], stdout = []\<rparr>)"
  by (simp add: Evaluate_def closeLoop_def closeLoop_loop.simps in_range_def advance_def)

text \<open>
  Claim C2. On a loop-open with the current cell 0, \<^verbatim>\<open>openLoop\<close> scans forward
  (counter from 1) and leaves the cursor at the matching loop-close \<open>j\<close>, and the step
  ends one past it; with a nonzero cell \<^verbatim>\<open>openLoop\<close> changes nothing and the step
  ends on the first instruction of the loop body.
\<close>

theorem openLoop_jump_forward:
  assumes "in_range (PC bf) (Instructions bf)"
    and "Instructions bf ! nat (PC bf) = LOOPL"
    and "in_range (DP bf) (Tape bf)"
  shows "(Tape bf ! nat (DP bf) = 0 \<and> matching (Instructions bf) (nat (PC bf)) j \<longrightarrow>
            openLoop bf = Inr (bf\<lparr>PC := int j\<rparr>) \<and>
            Instructions bf ! j = LOOPR \<and>
            Evaluate bf w =
              Inr (bf\<lparr>PC := int j + 1,
                      Finished := Finished bf \<or> int (length (Instructions bf)) \<le> int j + 1\<rparr>, w)) \<and>
         (Tape bf ! nat (DP bf) \<noteq> 0 \<longrightarrow>
            openLoop bf = Inr bf \<and>
            Evaluate bf w =
              Inr (bf\<lparr>PC := PC bf + 1,
                      Finished := Finished bf \<or> int (length (Instructions bf)) \<le> PC bf + 1\<rparr>, w))"
proof (intro conjI impI)
  assume z: "Tape bf ! nat (DP bf) = 0 \<and> matching (Instructions bf) (nat (PC bf)) j"
  then have m: "matching (Instructions bf) (nat (PC bf)) j" ..
  from assms(1) have pc: "int (nat (PC bf)) = PC bf" by (simp add: in_range_def)
  show o: "openLoop bf = Inr (bf\<lparr>PC := int j\<rparr>)"
    using openLoop_loop_matching [OF m] z assms(3) pc by (simp add: openLoop_def)
  show "Instructions bf ! j = LOOPR" using m by (simp add: matching_def)
  show "Evaluate bf w =
          Inr (bf\<lparr>PC := int j + 1,
                  Finished := Finished bf \<or> int (length (Instructions bf)) \<le> int j + 1\<rparr>, w)"
    using assms(1,2) o by (simp add: Evaluate_def advance_eq)
next
  assume nz: "Tape bf ! nat (DP bf) \<noteq> 0"
  then show o: "openLoop bf = Inr bf" using assms(3) by (simp add: openLoop_def)
  show "Evaluate bf w =
          Inr (bf\<lparr>PC := PC bf + 1,
                  Finished := Finished bf \<or> int (length (Instructions bf)) \<le> PC bf + 1\<rparr>, w)"
    using assms(1,2) o by (simp add: Evaluate_def advance_eq)
qed

text \<open>
  The theorem at the loop \<^verbatim>\<open>[-]\<close> with the cursor on its loop-open: on a zero cell
  the step ends at 3, past the loop-close at 2; on a cell holding 1 it ends at 1.
\<close>

theorem openLoop_jump_forward_witness:
  "in_range 0 [LOOPL, DEC, LOOPR] \<and> [LOOPL, DEC, LOOPR] ! nat 0 = LOOPL \<and>
   in_range 0 (replicate 64000 (0 :: byte)) \<and> replicate 64000 (0 :: byte) ! nat 0 = 0 \<and>
   matching [LOOPL, DEC, LOOPR] (nat 0) 2 \<and>
   Evaluate \<lparr>Instructions = [LOOPL, DEC, LOOPR], Tape = replicate 64000 0,
             DP = 0, PC = 0, Finished = False\<rparr> \<lparr>stdin = [], stdout = []\<rparr> =
     Inr (\<lparr>Instructions = [LOOPL, DEC, LOOPR], Tape = replicate 64000 0,
           DP = 0, PC = 3, Finished = True\<rparr>, \<lparr>stdin = [], stdout = []\<rparr>) \<and>
   in_range 0 ((replicate 64000 0)[0 := 1 :: byte]) \<and>
   (replicate 64000 0)[0 := 1 :: byte] ! nat 0 \<noteq> 0 \<and>
   Evaluate \<lparr>Instructions = [LOOPL, DEC, LOOPR], Tape = (replicate 64000 0)[0 := 1],
             DP = 0, PC = 0, Finished = False\<rparr> \<lparr>stdin = [], stdout = []\<rparr> =
     Inr (\<lparr>Instructions = [LOOPL, DEC, LOOPR], Tape = (replicate 64000 0)[0 := 1],
           DP = 0, PC = 1, Finished = False\<rparr>, \<lparr>stdin = [], stdout = []\<rparr>)"
proof -
  have h: "in_range 0 [LOOPL, DEC, LOOPR]" "[LOOPL, DEC, LOOPR] ! nat 0 = LOOPL"
    "in_range 0 (replicate 64000 (0 :: byte))" "replicate 64000 (0 :: byte) ! nat 0 = 0"
    "matching [LOOPL, DEC, LOOPR] (nat 0) 2"
    "in_range 0 ((replicate 64000 0)[0 := 1 :: byte])"
    "(replicate 64000 0)[0 := 1 :: byte] ! nat 0 \<noteq> 0"
    by (simp_all add: in_range_def matching_def balanced_def)
  from h
    openLoop_jump_forward
      [of "\<lparr>Instructions = [LOOPL, DEC, LOOPR], Tape = replicate 64000 0,
            DP = 0, PC = 0, Finished = False\<rparr>" 2 "\<lparr>stdin = [], stdout = []\<rparr>"]
    openLoop_jump_forward
      [of "\<lparr>Instructions = [LOOPL, DEC, LOOPR], Tape = (replicate 64000 0)[0 := 1],
            DP = 0, PC = 0, Finished = False\<rparr>" 2 "\<lparr>stdin = [], stdout = []\<rparr>"]
  show ?thesis by simp
qed

text \<open>
  Claim C3, as the code has it. The source \<^verbatim>\<open>+[-]\<close> on a fresh program takes five
  steps: \<^verbatim>\<open>+\<close> (cell 1), \<^verbatim>\<open>[\<close> entering the loop, \<^verbatim>\<open>-\<close> (cell 0, the only execution
  of the loop body), \<^verbatim>\<open>]\<close> back to the loop-open, and \<^verbatim>\<open>[\<close> again, which now skips
  past the loop-close. The caller's loop is not done after four calls and is done after
  five, with \<open>Finished\<close> true and the output untouched.
\<close>

theorem plus_loop_five_steps:
  "CreateBrainfuckProgram (runes ''+[-]'') =
     \<lparr>Instructions = [INC, LOOPL, DEC, LOOPR], Tape = replicate 64000 0,
      DP = 0, PC = 0, Finished = False\<rparr> \<and>
   Evaluate \<lparr>Instructions = [INC, LOOPL, DEC, LOOPR], Tape = replicate 64000 0,
             DP = 0, PC = 0, Finished = False\<rparr> w =
     Inr (\<lparr>Instructions = [INC, LOOPL, DEC, LOOPR], Tape = (replicate 64000 0)[0 := 1],
           DP = 0, PC = 1, Finished = False\<rparr>, w) \<and>
   Evaluate \<lparr>Instructions = [INC, LOOPL, DEC, LOOPR], Tape = (replicate 64000 0)[0 := 1],
             DP = 0, PC = 1, Finished = False\<rparr> w =
     Inr (\<lparr>Instructions = [INC, LOOPL, DEC, LOOPR], Tape = (replicate 64000 0)[0 := 1],
           DP = 0, PC = 2, Finished = False\<rparr>, w) \<and>
   Evaluate \<lparr>Instructions = [INC, LOOPL, DEC, LOOPR], Tape = (replicate 64000 0)[0 := 1],
             DP = 0, PC = 2, Finished = False\<rparr> w =
     Inr (\<lparr>Instructions = [INC, LOOPL, DEC, LOOPR], Tape = replicate 64000 0,
           DP = 0, PC = 3, Finished = False\<rparr>, w) \<and>
   Evaluate \<lparr>Instructions = [INC, LOOPL, DEC, LOOPR], Tape = replicate 64000 0,
             DP = 0, PC = 3, Finished = False\<rparr> w =
     Inr (\<lparr>Instructions = [INC, LOOPL, DEC, LOOPR], Tape = replicate 64000 0,
           DP = 0, PC = 1, Finished = False\<rparr>, w) \<and>
   Evaluate \<lparr>Instructions = [INC, LOOPL, DEC, LOOPR], Tape = replicate 64000 0,
             DP = 0, PC = 1, Finished = False\<rparr> w =
     Inr (\<lparr>Instructions = [INC, LOOPL, DEC, LOOPR], Tape = replicate 64000 0,
           DP = 0, PC = 4, Finished = True\<rparr>, w) \<and>
   run 4 (CreateBrainfuckProgram (runes ''+[-]'')) w = None \<and>
   run 5 (CreateBrainfuckProgram (runes ''+[-]'')) w =
     Some (Inr (\<lparr>Instructions = [INC, LOOPL, DEC, LOOPR], Tape = replicate 64000 0,
                 DP = 0, PC = 4, Finished = True\<rparr>, w))"
  by (simp add: plus_loop_program plus_loop_steps run_numeral)

text \<open>
  Claim C3 as stated fails in its step count: after the four calls of \<^verbatim>\<open>Evaluate\<close>
  that the claim counts, the program is not finished, so the caller's loop limited to
  four calls does not return.
\<close>

theorem plus_loop_four_steps_counterexample:
  "run 4 (CreateBrainfuckProgram (runes ''+[-]'')) \<lparr>stdin = [], stdout = []\<rparr> = None"
  by (simp add: plus_loop_program plus_loop_steps run_numeral)

section \<open>Faults of the instruction cursor\<close>

text \<open>
  Claim C6. The sources \<^verbatim>\<open>[\<close> (created with a zero cell) and \<^verbatim>\<open>]\<close> have unmatched
  brackets. Their first step begins with a valid cursor, and the bracket scan moves it
  out of the instruction list and indexes \<open>Instructions\<close> there; the panic is not
  recovered, it is what the step and the caller's loop end with.
\<close>

theorem unmatched_bracket_panics:
  "\<not> balanced (Instructions (CreateBrainfuckProgram (runes ''[''))) \<and>
   Tape (CreateBrainfuckProgram (runes ''['')) ! nat (DP (CreateBrainfuckProgram (runes ''[''))) = 0 \<and>
   in_range (PC (CreateBrainfuckProgram (runes ''['')))
     (Instructions (CreateBrainfuckProgram (runes ''[''))) \<and>
   openLoop (CreateBrainfuckProgram (runes ''['')) = Inl InstructionsIndexOutOfRange \<and>
   Evaluate (CreateBrainfuckProgram (runes ''['')) w = Inl InstructionsIndexOutOfRange \<and>
   run (Suc n) (CreateBrainfuckProgram (runes ''['')) w = Some (Inl InstructionsIndexOutOfRange) \<and>
   \<not> balanced (Instructions (CreateBrainfuckProgram (runes '']''))) \<and>
   in_range (PC (CreateBrainfuckProgram (runes '']'')))
     (Instructions (CreateBrainfuckProgram (runes '']''))) \<and>
   closeLoop (CreateBrainfuckProgram (runes '']'')) = Inl InstructionsIndexOutOfRange \<and>
   Evaluate (CreateBrainfuckProgram (runes '']'')) w = Inl InstructionsIndexOutOfRange \<and>
   run (Suc n) (CreateBrainfuckProgram (runes '']'')) w = Some (Inl InstructionsIndexOutOfRange)"
  by (simp add: create_eq runes_def tokenize_char_def balanced_def Evaluate_def in_range_def
      openLoop_def openLoop_loop.simps closeLoop_def closeLoop_loop.simps)

text \<open>
  Claim C10. \<^verbatim>\<open>Evaluate\<close> on a program whose cursor equals the number of
  instructions indexes \<open>Instructions\<close> out of range, whatever \<open>Finished\<close> says. The
  program created from the empty source has no instructions and \<open>Finished\<close> false, so
  the caller's loop panics in its first call.
\<close>

theorem step_at_end_panics:
  assumes "PC bf = int (length (Instructions bf))"
  shows "Evaluate bf w = Inl InstructionsIndexOutOfRange \<and>
         Evaluate (bf\<lparr>Finished := True\<rparr>) w = Inl InstructionsIndexOutOfRange \<and>
         Instructions (CreateBrainfuckProgram []) = [] \<and>
         \<not> Finished (CreateBrainfuckProgram []) \<and>
         run (Suc n) (CreateBrainfuckProgram []) w = Some (Inl InstructionsIndexOutOfRange)"
  using assms by (simp add: Evaluate_def in_range_def create_eq)

text \<open>The theorem at the program created from the empty source.\<close>

theorem step_at_end_panics_witness:
  "PC (CreateBrainfuckProgram []) = int (length (Instructions (CreateBrainfuckProgram []))) \<and>
   Evaluate (CreateBrainfuckProgram []) \<lparr>stdin = [], stdout = []\<rparr> =
     Inl InstructionsIndexOutOfRange \<and>
   run 1 (CreateBrainfuckProgram []) \<lparr>stdin = [], stdout = []\<rparr> =
     Some (Inl InstructionsIndexOutOfRange)"
proof -
  have h: "PC (CreateBrainfuckProgram []) = int (length (Instructions (CreateBrainfuckProgram [])))"
    by (simp add: create_eq)
  from step_at_end_panics [OF h, of "\<lparr>stdin = [], stdout = []\<rparr>" 0] h
  show ?thesis by simp
qed

text \<open>
  Claim C4 at the empty source, whose brackets are balanced: the created program is
  not finished, yet its cursor equals the number of instructions and is no valid index
  when the first step begins.
\<close>

theorem empty_source_cursor_not_valid:
  "balanced (Instructions (CreateBrainfuckProgram [])) \<and>
   \<not> Finished (CreateBrainfuckProgram []) \<and>
   PC (CreateBrainfuckProgram []) = int (length (Instructions (CreateBrainfuckProgram []))) \<and>
   \<not> in_range (PC (CreateBrainfuckProgram [])) (Instructions (CreateBrainfuckProgram []))"
  by (simp add: create_eq balanced_def in_range_def)

text \<open>
  The empty source is the only one that breaks the cursor discipline. For a non-empty
  source, every state that the caller's loop meets has the cursor between 0 and the
  number of instructions, \<open>Finished\<close> holds exactly when the cursor has reached that
  number, and so the cursor is a valid index whenever a step begins.
\<close>

theorem cursor_invariant_nonempty_source:
  assumes "reachable input w0 (bf, w)" and "input \<noteq> []"
  shows "Instructions bf = map tokenize_char input \<and>
         0 \<le> PC bf \<and> PC bf \<le> int (length (Instructions bf)) \<and>
         (Finished bf \<longleftrightarrow> int (length (Instructions bf)) \<le> PC bf) \<and>
         (\<not> Finished bf \<longrightarrow> in_range (PC bf) (Instructions bf))"
  using assms
proof (induction "(bf, w)" arbitrary: bf w rule: reachable.induct)
  case created
  then show ?case by (simp add: create_eq in_range_def)
next
  case (stepped bf w bf' w')
  from stepped.hyps(2) [OF stepped.prems]
  have inv: "Instructions bf = map tokenize_char input" by simp
  from Evaluate_cursor [OF stepped.hyps(4)] stepped.hyps(3) inv
  show ?case by (auto simp: in_range_def)
qed

text \<open>The theorem at the source \<^verbatim>\<open>+\<close> after its only step.\<close>

theorem cursor_invariant_nonempty_source_witness:
  "reachable (runes ''+'') \<lparr>stdin = [], stdout = []\<rparr>
     (\<lparr>Instructions = [INC], Tape = (replicate 64000 0)[0 := 1], DP = 0, PC = 1,
       Finished = True\<rparr>, \<lparr>stdin = [], stdout = []\<rparr>) \<and>
   runes ''+'' \<noteq> [] \<and>
   [INC] = map tokenize_char (runes ''+'')"
proof -
  have c: "CreateBrainfuckProgram (runes ''+'') =
             \<lparr>Instructions = [INC], Tape = replicate 64000 0, DP = 0, PC = 0,
              Finished = False\<rparr>"
    by (simp add: create_eq runes_def tokenize_char_def)
  have e: "Evaluate \<lparr>Instructions = [INC], Tape = replicate 64000 0, DP = 0, PC = 0,
                     Finished = False\<rparr> \<lparr>stdin = [], stdout = []\<rparr> =
           Inr (\<lparr>Instructions = [INC], Tape = (replicate 64000 0)[0 := 1], DP = 0, PC = 1,
                 Finished = True\<rparr>, \<lparr>stdin = [], stdout = []\<rparr>)"
    by (simp add: Evaluate_def in_range_def advance_def)
  have "reachable (runes ''+'') \<lparr>stdin = [], stdout = []\<rparr>
          (\<lparr>Instructions = [INC], Tape = replicate 64000 0, DP = 0, PC = 0,
            Finished = False\<rparr>, \<lparr>stdin = [], stdout = []\<rparr>)"
    using reachable.created [of "runes ''+''" "\<lparr>stdin = [], stdout = []\<rparr>"] c by simp
  then have r: "reachable (runes ''+'') \<lparr>stdin = [], stdout = []\<rparr>
          (\<lparr>Instructions = [INC], Tape = (replicate 64000 0)[0 := 1], DP = 0, PC = 1,
            Finished = True\<rparr>, \<lparr>stdin = [], stdout = []\<rparr>)"
    by (rule reachable.stepped) (simp_all add: e)
  have n: "runes ''+'' \<noteq> []" by (simp add: runes_def)
  from cursor_invariant_nonempty_source [OF r n] r n show ?thesis by simp
qed

text \<open>
  With balanced brackets and a valid cursor, no step indexes \<open>Instructions\<close> out of
  range: both bracket scans find their partner.
\<close>

theorem balanced_no_instruction_fault:
  assumes "balanced (Instructions bf)" and "in_range (PC bf) (Instructions bf)"
  shows "Evaluate bf w \<noteq> Inl InstructionsIndexOutOfRange"
proof -
  let ?ins = "Instructions bf" and ?p = "nat (PC bf)"
  from assms(2) have p: "?p < length ?ins" "int ?p = PC bf" by (auto simp: in_range_def)
  note bs = balanced_split [OF assms(1) p(1)]
  show ?thesis
  proof (cases "?ins ! ?p")
    case LOOPL
    then have "1 + sumd (drop (Suc ?p) ?ins) \<le> 0" using bs(1,3) by (simp add: delta_def)
    from openLoop_loop_returns [OF _ this, of "take (Suc ?p) ?ins"]
    obtain r where "openLoop_loop ?ins (PC bf) 1 = Inr r" using p by auto
    with LOOPL assms(2) show ?thesis
      by (simp add: Evaluate_def openLoop_def)
  next
    case LOOPR
    then have "0 \<le> - 1 + sumd (take ?p ?ins)" using bs(2) by (simp add: delta_def)
    from closeLoop_loop_returns [OF _ this, of "drop ?p ?ins"]
    obtain r where "closeLoop_loop ?ins (PC bf - 1) (- 1) = Inr r" using p by auto
    moreover have "closeLoop_loop ?ins (PC bf) 0 = closeLoop_loop ?ins (PC bf - 1) (- 1)"
      using LOOPR closeLoop_loop_step [OF assms(2), of 0] by (simp add: delta_def)
    ultimately show ?thesis using LOOPR assms(2)
      by (simp add: Evaluate_def closeLoop_def)
  qed (use assms(2) in \<open>simp_all add: Evaluate_def split: prod.splits\<close>)
qed

text \<open>The theorem at the loop \<^verbatim>\<open>[-]\<close> on a zero cell.\<close>

theorem balanced_no_instruction_fault_witness:
  "balanced [LOOPL, DEC, LOOPR] \<and> in_range 0 [LOOPL, DEC, LOOPR] \<and>
   Evaluate \<lparr>Instructions = [LOOPL, DEC, LOOPR], Tape = replicate 64000 0, DP = 0, PC = 0,
             Finished = False\<rparr> \<lparr>stdin = [], stdout = []\<rparr> \<noteq> Inl InstructionsIndexOutOfRange"
proof -
  have h: "balanced [LOOPL, DEC, LOOPR]" "in_range 0 [LOOPL, DEC, LOOPR]"
    by (simp_all add: balanced_def in_range_def)
  from h balanced_no_instruction_fault
    [of "\<lparr>Instructions = [LOOPL, DEC, LOOPR], Tape = replicate 64000 0, DP = 0, PC = 0,
          Finished = False\<rparr>" "\<lparr>stdin = [], stdout = []\<rparr>"]
  show ?thesis by simp
qed

section \<open>Cell instructions\<close>

text \<open>
  Claim C7, as the code has it. When the input is exhausted, the input-cell instruction
  stores 0 in the current cell: the failed read returns the rune 0 and \<^verbatim>\<open>Evaluate\<close>
  assigns its low byte whatever the error. The rest of the step is the cursor increment
  and the \<open>Finished\<close> test.
\<close>

theorem read_at_end_of_input:
  assumes "in_range (PC bf) (Instructions bf)"
    and "Instructions bf ! nat (PC bf) = READ"
    and "in_range (DP bf) (Tape bf)"
    and "stdin w = []"
  shows "Evaluate bf w =
           Inr (bf\<lparr>Tape := (Tape bf)[nat (DP bf) := 0], PC := PC bf + 1,
                   Finished := Finished bf \<or> int (length (Instructions bf)) \<le> PC bf + 1\<rparr>, w)"
  using assms by (simp add: Evaluate_def ReadRune_def advance_eq)

text \<open>
  The theorem at \<^verbatim>\<open>-,\<close> after its first step: the cell holding 255 is 0 after the
  read.
\<close>

theorem read_at_end_of_input_witness:
  "in_range 1 [DEC, READ] \<and> [DEC, READ] ! nat 1 = READ \<and>
   in_range 0 ((replicate 64000 0)[0 := 255 :: byte]) \<and>
   Evaluate \<lparr>Instructions = [DEC, READ], Tape = (replicate 64000 0)[0 := 255],
             DP = 0, PC = 1, Finished = False\<rparr> \<lparr>stdin = [], stdout = []\<rparr> =
     Inr (\<lparr>Instructions = [DEC, READ], Tape = (replicate 64000 0)[0 := 0],
           DP = 0, PC = 2, Finished = True\<rparr>, \<lparr>stdin = [], stdout = []\<rparr>)"
proof -
  have h: "in_range 1 [DEC, READ]" "[DEC, READ] ! nat 1 = READ"
    "in_range 0 ((replicate 64000 0)[0 := 255 :: byte])"
    by (simp_all add: in_range_def)
  from read_at_end_of_input
    [of "\<lparr>Instructions = [DEC, READ], Tape = (replicate 64000 0)[0 := 255],
          DP = 0, PC = 1, Finished = False\<rparr>" "\<lparr>stdin = [], stdout = []\<rparr>"] h
  show ?thesis by simp
qed

text \<open>
  Claim C7 as stated fails. In \<^verbatim>\<open>+,\<close> after its first step the cell holds 1; the
  input-cell instruction on exhausted input leaves 0 there, not 1.
\<close>

theorem read_keeps_cell_counterexample:
  "(replicate 64000 0)[0 := 1 :: byte] ! 0 = 1 \<and>
   Evaluate \<lparr>Instructions = [INC, READ], Tape = (replicate 64000 0)[0 := 1],
             DP = 0, PC = 1, Finished = False\<rparr> \<lparr>stdin = [], stdout = []\<rparr> =
     Inr (\<lparr>Instructions = [INC, READ], Tape = (replicate 64000 0)[0 := 0],
           DP = 0, PC = 2, Finished = True\<rparr>, \<lparr>stdin = [], stdout = []\<rparr>) \<and>
   (replicate 64000 0)[0 := 0 :: byte] ! 0 \<noteq> (replicate 64000 0)[0 := 1 :: byte] ! 0"
  by (simp add: Evaluate_def in_range_def ReadRune_def advance_def)

text \<open>
  Claim C9, as the code has it. Increment-cell and decrement-cell add and subtract one
  modulo 256 in the current cell: 255 becomes 0 and 0 becomes 255. Apart from that cell
  the step changes the instruction cursor, which grows by one, and \<open>Finished\<close>, which
  becomes true when the new cursor has reached the number of instructions; the data
  cursor, the instructions, the other cells and the streams stay as they are.
\<close>

theorem cell_arithmetic_wraps:
  assumes "in_range (PC bf) (Instructions bf)" and "in_range (DP bf) (Tape bf)"
  shows "(Instructions bf ! nat (PC bf) = INC \<longrightarrow>
            Evaluate bf w =
              Inr (bf\<lparr>Tape := (Tape bf)[nat (DP bf) := Tape bf ! nat (DP bf) + 1],
                      PC := PC bf + 1,
                      Finished := Finished bf \<or> int (length (Instructions bf)) \<le> PC bf + 1\<rparr>, w) \<and>
            unat (Tape bf ! nat (DP bf) + 1) = (unat (Tape bf ! nat (DP bf)) + 1) mod 256 \<and>
            (Tape bf ! nat (DP bf) = 255 \<longrightarrow> Tape bf ! nat (DP bf) + 1 = 0)) \<and>
         (Instructions bf ! nat (PC bf) = DEC \<longrightarrow>
            Evaluate bf w =
              Inr (bf\<lparr>Tape := (Tape bf)[nat (DP bf) := Tape bf ! nat (DP bf) - 1],
                      PC := PC bf + 1,
                      Finished := Finished bf \<or> int (length (Instructions bf)) \<le> PC bf + 1\<rparr>, w) \<and>
            unat (Tape bf ! nat (DP bf) - 1) = (unat (Tape bf ! nat (DP bf)) + 255) mod 256 \<and>
            (Tape bf ! nat (DP bf) = 0 \<longrightarrow> Tape bf ! nat (DP bf) - 1 = 255))"
proof -
  have inc: "unat (c + 1) = (unat c + 1) mod 256" for c :: byte
    by (simp add: unat_word_ariths)
  have dec: "unat (c - 1) = (unat c + 255) mod 256" for c :: byte
  proof -
    have "c - 1 = c + 255" by simp
    then show ?thesis by (simp only: unat_word_ariths) simp
  qed
  show ?thesis using assms by (simp add: Evaluate_def advance_eq inc dec)
qed

text \<open>
  The theorem in \<^verbatim>\<open>-+.\<close>: the decrement of the fresh cell gives 255 and the increment
  that follows gives 0.
\<close>

theorem cell_arithmetic_wraps_witness:
  "in_range 1 [DEC, INC, PRINT] \<and> in_range 0 ((replicate 64000 0)[0 := 255 :: byte]) \<and>
   [DEC, INC, PRINT] ! nat 1 = INC \<and> (replicate 64000 0)[0 := 255 :: byte] ! nat 0 = 255 \<and>
   Evaluate \<lparr>Instructions = [DEC, INC, PRINT], Tape = (replicate 64000 0)[0 := 255],
             DP = 0, PC = 1, Finished = False\<rparr> \<lparr>stdin = [], stdout = []\<rparr> =
     Inr (\<lparr>Instructions = [DEC, INC, PRINT], Tape = (replicate 64000 0)[0 := 0],
           DP = 0, PC = 2, Finished = False\<rparr>, \<lparr>stdin = [], stdout = []\<rparr>) \<and>
   in_range 0 [DEC, INC, PRINT] \<and> in_range 0 (replicate 64000 (0 :: byte)) \<and>
   [DEC, INC, PRINT] ! nat 0 = DEC \<and> replicate 64000 (0 :: byte) ! nat 0 = 0 \<and>
   Evaluate \<lparr>Instructions = [DEC, INC, PRINT], Tape = replicate 64000 0,
             DP = 0, PC = 0, Finished = False\<rparr> \<lparr>stdin = [], stdout = []\<rparr> =
     Inr (\<lparr>Instructions = [DEC, INC, PRINT], Tape = (replicate 64000 0)[0 := 255],
           DP = 0, PC = 1, Finished = False\<rparr>, \<lparr>stdin = [], stdout = []\<rparr>)"
proof -
  have h: "in_range 1 [DEC, INC, PRINT]" "in_range 0 ((replicate 64000 0)[0 := 255 :: byte])"
    "[DEC, INC, PRINT] ! nat 1 = INC" "(replicate 64000 0)[0 := 255 :: byte] ! nat 0 = 255"
    "in_range 0 [DEC, INC, PRINT]" "in_range 0 (replicate 64000 (0 :: byte))"
    "[DEC, INC, PRINT] ! nat 0 = DEC" "replicate 64000 (0 :: byte) ! nat 0 = 0"
    by (simp_all add: in_range_def)
  from h
    cell_arithmetic_wraps
      [of "\<lparr>Instructions = [DEC, INC, PRINT], Tape = (replicate 64000 0)[0 := 255],
            DP = 0, PC = 1, Finished = False\<rparr>" "\<lparr>stdin = [], stdout = []\<rparr>"]
    cell_arithmetic_wraps
      [of "\<lparr>Instructions = [DEC, INC, PRINT], Tape = replicate 64000 0,
            DP = 0, PC = 0, Finished = False\<rparr>" "\<lparr>stdin = [], stdout = []\<rparr>"]
  show ?thesis by (simp add: byte_wrap)
qed

text \<open>
  Claim C9 as stated fails in its frame: in \<^verbatim>\<open>-+\<close> the increment is the last
  instruction, and the step that takes the cell from 255 to 0 also sets \<open>Finished\<close>,
  which is part of the program state.
\<close>

theorem increment_changes_finished_counterexample:
  "(replicate 64000 0)[0 := 255 :: byte] ! 0 = 255 \<and>
   Evaluate \<lparr>Instructions = [DEC, INC], Tape = (replicate 64000 0)[0 := 255],
             DP = 0, PC = 1, Finished = False\<rparr> \<lparr>stdin = [], stdout = []\<rparr> =
     Inr (\<lparr>Instructions = [DEC, INC], Tape = (replicate 64000 0)[0 := 0],
           DP = 0, PC = 2, Finished = True\<rparr>, \<lparr>stdin = [], stdout = []\<rparr>) \<and>
   Evaluate \<lparr>Instructions = [DEC, INC], Tape = (replicate 64000 0)[0 := 255],
             DP = 0, PC = 1, Finished = False\<rparr> \<lparr>stdin = [], stdout = []\<rparr> \<noteq>
     Inr (\<lparr>Instructions = [DEC, INC], Tape = (replicate 64000 0)[0 := 0],
           DP = 0, PC = 2, Finished = False\<rparr>, \<lparr>stdin = [], stdout = []\<rparr>)"
  by (simp add: Evaluate_def in_range_def advance_def byte_wrap)

end
